theory Spec2Isabelle
  imports Complex_Main "HOL-Library.Word" "HOL-Library.Signed_Division"
    "HOL-Library.Monad_Syntax"
begin

section \<open>Neighbor-list lifecycle of GPUMD (src/neighbor.cu)\<close>

text \<open>
  The theory embeds the host functions and the CUDA kernels of \<^verbatim>\<open>src/neighbor.cu\<close>:
  the displacement check (\<^verbatim>\<open>check_atom_distance\<close> with its two reduction kernels), the
  periodic wrap (\<^verbatim>\<open>gpu_apply_pbc\<close>), the reference snapshot (\<^verbatim>\<open>gpu_update_xyz0\<close>), the
  capacity check (\<^verbatim>\<open>check_bound\<close>), the method selection (\<^verbatim>\<open>find_neighbor\<close>) and the
  driver (the overload of \<^verbatim>\<open>find_neighbor\<close> with \<^verbatim>\<open>is_first\<close>, here \<open>find_neighbor_driver\<close>).

  Conventions of the embedding.
  \<^item> The C type \<^verbatim>\<open>real\<close> (float or double, by \<^verbatim>\<open>USE_DP\<close>) is the type parameter \<open>'a\<close>.
    The kernels need only its operations (\<open>+\<close>, \<open>-\<close>, \<open>*\<close>, \<open><\<close>, \<open>0\<close>) and none of
    their laws, so what is proved about them holds for any arithmetic, rounding
    included. The host code, which needs \<^verbatim>\<open>0.5\<close> and \<^verbatim>\<open>floor\<close>, is modelled on \<^typ>\<open>real\<close>,
    with the rounded division of \<^verbatim>\<open>real\<close> as a parameter.
  \<^item> A device array is a list; element \<open>n\<close> is \<open>xs ! n\<close>, a store is \<open>xs[n := v]\<close>. The
    arrays of one state are distinct objects. An access beyond the end of an array has no
    defined behaviour in C; here \<open>xs ! n\<close> is then an unspecified value and a store does
    nothing. The properties are meant for states whose arrays hold the \<open>N\<close> particles.
  \<^item> A C \<^verbatim>\<open>int\<close> that only counts or indexes particles is an \<^typ>\<open>int\<close>; the reduction
    counters are \<^typ>\<open>32 word\<close>, where \<open>+\<close> wraps.
  \<^item> \<^verbatim>\<open>exit(1)\<close> and \<^verbatim>\<open>printf\<close> are values: every host function that can print or exit
    returns the lines printed and an outcome.
  \<^item> CUDA runtime failures (a failed \<^verbatim>\<open>cudaMalloc\<close> or \<^verbatim>\<open>cudaMemcpy\<close>, caught by the
    macros \<^verbatim>\<open>CHECK\<close> and \<^verbatim>\<open>MY_MALLOC\<close> of headers that are not part of the file) are not
    modelled: device memory operations succeed.
\<close>

subsection \<open>Data\<close>

text \<open>
  \<^verbatim>\<open>Parameters\<close> and \<^verbatim>\<open>Atom\<close> are declared in headers outside the file; the records
  hold the members that \<^verbatim>\<open>neighbor.cu\<close> reads or writes: \<^verbatim>\<open>para->N\<close>, \<^verbatim>\<open>para->pbc_x\<close>, ...,
  \<^verbatim>\<open>para->neighbor.MN\<close>, \<^verbatim>\<open>para->neighbor.rc\<close>, and \<^verbatim>\<open>atom->x\<close>, ..., \<^verbatim>\<open>atom->NN\<close>,
  \<^verbatim>\<open>atom->box_length\<close>. The member \<open>atom_NL\<close> is the array of neighbor indices that the
  builders fill; the file itself never touches it.
\<close>

record 'a Parameters =
  para_N :: int
  para_pbc_x :: int
  para_pbc_y :: int
  para_pbc_z :: int
  para_MN :: int
  para_rc :: 'a

record 'a Atom =
  atom_x :: "'a list"
  atom_y :: "'a list"
  atom_z :: "'a list"
  atom_x0 :: "'a list"
  atom_y0 :: "'a list"
  atom_z0 :: "'a list"
  atom_box_length :: "'a list"
  atom_NN :: "int list"
  atom_NL :: "int list"

text \<open>
  A line printed by \<^verbatim>\<open>printf("Error: NN[%d] = %d > %d\n", n, cpu_NN[n], para->neighbor.MN)\<close>,
  kept as its three arguments.
\<close>

datatype message = Error_NN int int int

text \<open>
  How a host function ends: it returns (with the state it leaves), or the process exits
  with a status, or the C program has no defined behaviour (a conversion to \<^verbatim>\<open>int\<close> of a
  value out of its range).
\<close>

datatype 'a outcome = Returns 'a | Exits int | Undefined

subsection \<open>Constants\<close>

definition BLOCK_SIZE :: int where
  "BLOCK_SIZE = 128"

definition DIM :: nat where
  "DIM = 3"

text \<open>\<^verbatim>\<open>HALF\<close> is \<^verbatim>\<open>0.5\<close> or \<^verbatim>\<open>0.5f\<close>, by \<^verbatim>\<open>USE_DP\<close>.\<close>

definition HALF :: real where
  "HALF = 0.5"

text \<open>
  Below that many cells the \<open>O(N\<^sup>2)\<close> method is used instead of the \<open>O(N)\<close> method.
\<close>

definition NUM_OF_CELLS :: int where
  "NUM_OF_CELLS = 50"

definition INT_MAX :: int where
  "INT_MAX = 2147483647"

definition INT_MIN :: int where
  "INT_MIN = - 2147483648"

type_synonym int32 = "32 word"

subsection \<open>Kernel launches\<close>

text \<open>
  \<^verbatim>\<open>kernel<<<gridDim, blockDim>>>(...)\<close> for a kernel without a barrier whose thread
  \<open>n\<close> reads and writes element \<open>n\<close> of its arrays only: no two threads touch the same
  element, so the threads are run one after the other, block by block. A grid of no
  block (\<open>gridDim \<le> 0\<close>) runs no thread. The thread function receives \<^verbatim>\<open>blockIdx.x\<close>,
  \<^verbatim>\<open>blockDim.x\<close> and \<^verbatim>\<open>threadIdx.x\<close> and the state of the arrays it writes.
\<close>

definition launch :: "int \<Rightarrow> nat \<Rightarrow> (nat \<Rightarrow> nat \<Rightarrow> nat \<Rightarrow> 's \<Rightarrow> 's) \<Rightarrow> 's \<Rightarrow> 's" where
  "launch gridDim blockDim thread s =
     fold (\<lambda>blockIdx. fold (\<lambda>threadIdx. thread blockIdx blockDim threadIdx) [0..<blockDim])
       [0..<nat gridDim] s"

subsection \<open>The tree reduction in shared memory\<close>

text \<open>
  One statement \<^verbatim>\<open>s_sum[tid] += s_sum[tid + k]\<close> executed at the same time by the threads
  \<open>tid < active\<close> of a block: every thread reads before any thread writes. Between two
  such statements the kernels have \<^verbatim>\<open>__syncthreads()\<close>; inside \<^verbatim>\<open>warp_reduce\<close> the 32
  threads of the first warp run in lockstep on the \<^verbatim>\<open>volatile\<close> array.
\<close>

definition add_step :: "nat \<Rightarrow> nat \<Rightarrow> int32 list \<Rightarrow> int32 list" where
  "add_step active k s =
     map (\<lambda>t. if t < active then s ! t + s ! (t + k) else s ! t) [0..<length s]"

text \<open>\<^verbatim>\<open>if (tid < 32) warp_reduce(s_sum, tid)\<close>\<close>

definition warp_reduce :: "int32 list \<Rightarrow> int32 list" where
  "warp_reduce s =
     (let s = add_step 32 32 s; s = add_step 32 16 s; s = add_step 32 8 s;
          s = add_step 32 4 s;  s = add_step 32 2 s;  s = add_step 32 1 s
      in s)"

text \<open>
  The five lines after the first \<^verbatim>\<open>__syncthreads()\<close>, the same in both reduction kernels:
  \<^verbatim>\<open>if (tid < 512) s_sum[tid] += s_sum[tid + 512]; __syncthreads();\<close> ...
  \<^verbatim>\<open>if (tid < 32) warp_reduce(s_sum, tid);\<close>
\<close>

definition tree_reduce :: "int32 list \<Rightarrow> int32 list" where
  "tree_reduce s_sum =
     (let s_sum = add_step 512 512 s_sum;
          s_sum = add_step 256 256 s_sum;
          s_sum = add_step 128 128 s_sum;
          s_sum = add_step 64 64 s_sum;
          s_sum = warp_reduce s_sum
      in s_sum)"

subsection \<open>check_atom_distance\<close>

text \<open>
  One block of \<^verbatim>\<open>check_atom_distance_1\<close>. Thread \<open>tid\<close> sets \<^verbatim>\<open>s_sum[tid]\<close> to 0 and then
  to 1 if its particle \<open>n = bid * blockDim.x + tid\<close> is in range and has moved by more
  than \<open>d2\<close> (squared); after the barrier the block reduces \<open>s_sum\<close>, and thread 0 stores
  \<^verbatim>\<open>s_sum[0]\<close> to \<^verbatim>\<open>g_sum[bid]\<close>. The value of the function is the value stored.
  The shared array has the entries of the threads of the block (1024 as launched).
\<close>

definition check_atom_distance_1 ::
  "nat \<Rightarrow> nat \<Rightarrow> int \<Rightarrow> 'a::{plus,minus,times,ord} \<Rightarrow> 'a list \<Rightarrow> 'a list \<Rightarrow> 'a list \<Rightarrow>
   'a list \<Rightarrow> 'a list \<Rightarrow> 'a list \<Rightarrow> int32" where
  "check_atom_distance_1 bid blockDim N d2 x_old y_old z_old x_new y_new z_new =
     (let s_sum =
            map (\<lambda>tid.
                   let n = bid * blockDim + tid
                   in if int n < N then
                        (let dx = x_new ! n - x_old ! n;
                             dy = y_new ! n - y_old ! n;
                             dz = z_new ! n - z_old ! n
                         in if (dx * dx + dy * dy + dz * dz) > d2 then 1 else 0)
                      else 0)
              [0..<blockDim];
          s_sum = tree_reduce s_sum
      in s_sum ! 0)"

text \<open>
  The single block of \<^verbatim>\<open>check_atom_distance_2\<close>. Thread \<open>tid\<close> adds up the entries
  \<open>tid + patch * 1024\<close> of \<open>g_sum_i\<close> that are below \<open>M\<close>, the block reduces, and thread 0
  stores \<^verbatim>\<open>s_sum[0]\<close> to \<^verbatim>\<open>g_sum_o[0]\<close>. The C division \<^verbatim>\<open>/\<close> truncates: \<open>sdiv\<close>.
\<close>

definition check_atom_distance_2 :: "nat \<Rightarrow> int \<Rightarrow> int32 list \<Rightarrow> int32" where
  "check_atom_distance_2 blockDim M g_sum_i =
     (let number_of_patches = (M - 1) sdiv 1024 + 1;
          s_sum =
            map (\<lambda>tid.
                   fold (\<lambda>patch s.
                           let n = tid + patch * 1024
                           in if int n < M then s + g_sum_i ! n else s)
                     [0..<nat number_of_patches] 0)
              [0..<blockDim];
          s_sum = tree_reduce s_sum
      in s_sum ! 0)"

text \<open>
  \<^verbatim>\<open>check_atom_distance\<close> with the threshold as an argument. \<open>s1\<close> has \<open>M\<close> entries, and
  block \<open>bid\<close> of the first launch (\<open>M\<close> blocks of 1024 threads) stores entry \<open>bid\<close>;
  the second launch has one block of 1024 threads. The value copied back from \<open>s2\<close> is
  returned.
\<close>

definition check_atom_distance_with ::
  "'a::{plus,minus,times,ord} \<Rightarrow> 'a Parameters \<Rightarrow> 'a Atom \<Rightarrow> int32" where
  "check_atom_distance_with d2 para atom =
     (let N = para_N para;
          M = (N - 1) sdiv 1024 + 1;
          s1 = map (\<lambda>bid. check_atom_distance_1 bid 1024 N d2
                             (atom_x0 atom) (atom_y0 atom) (atom_z0 atom)
                             (atom_x atom) (atom_y atom) (atom_z atom))
                 [0..<nat M];
          s2 = check_atom_distance_2 1024 M s1;
          update = s2
      in update)"

text \<open>The source fixes the threshold: \<^verbatim>\<open>real d2 = HALF * HALF; // to be generalized to use input\<close>\<close>

definition check_atom_distance :: "real Parameters \<Rightarrow> real Atom \<Rightarrow> int32" where
  "check_atom_distance para atom = check_atom_distance_with (HALF * HALF) para atom"

subsection \<open>gpu_apply_pbc and gpu_update_xyz0\<close>

definition gpu_apply_pbc ::
  "nat \<Rightarrow> nat \<Rightarrow> nat \<Rightarrow> int \<Rightarrow> int \<Rightarrow> int \<Rightarrow> int \<Rightarrow> 'a::{zero,plus,minus,ord} list \<Rightarrow>
   'a list \<times> 'a list \<times> 'a list \<Rightarrow> 'a list \<times> 'a list \<times> 'a list" where
  "gpu_apply_pbc blockIdx blockDim threadIdx N pbc_x pbc_y pbc_z box_length =
     (\<lambda>(x, y, z).
        let n = blockIdx * blockDim + threadIdx;
            lx = box_length ! 0;
            ly = box_length ! 1;
            lz = box_length ! 2
        in if int n < N then
             (let x = (if pbc_x = 1 then
                         (if x ! n < 0 then x[n := x ! n + lx]
                          else if x ! n > lx then x[n := x ! n - lx] else x)
                       else x);
                  y = (if pbc_y = 1 then
                         (if y ! n < 0 then y[n := y ! n + ly]
                          else if y ! n > ly then y[n := y ! n - ly] else y)
                       else y);
                  z = (if pbc_z = 1 then
                         (if z ! n < 0 then z[n := z ! n + lz]
                          else if z ! n > lz then z[n := z ! n - lz] else z)
                       else z)
              in (x, y, z))
           else (x, y, z))"

definition gpu_update_xyz0 ::
  "nat \<Rightarrow> nat \<Rightarrow> nat \<Rightarrow> int \<Rightarrow> 'a list \<Rightarrow> 'a list \<Rightarrow> 'a list \<Rightarrow>
   'a list \<times> 'a list \<times> 'a list \<Rightarrow> 'a list \<times> 'a list \<times> 'a list" where
  "gpu_update_xyz0 blockIdx blockDim threadIdx N x y z =
     (\<lambda>(x0, y0, z0).
        let n = blockIdx * blockDim + threadIdx
        in if int n < N then (x0[n := x ! n], y0[n := y ! n], z0[n := z ! n])
           else (x0, y0, z0))"

text \<open>
  The two launch statements of the driver, on the state \<open>atom\<close>:
  \<^verbatim>\<open>gpu_apply_pbc<<<(N - 1) / BLOCK_SIZE + 1, BLOCK_SIZE>>>(N, para->pbc_x, para->pbc_y,
  para->pbc_z, atom->box_length, atom->x, atom->y, atom->z)\<close> and
  \<^verbatim>\<open>gpu_update_xyz0<<<(N - 1) / BLOCK_SIZE + 1, BLOCK_SIZE>>>(N, atom->x, atom->y, atom->z,
  atom->x0, atom->y0, atom->z0)\<close>.
\<close>

definition apply_pbc :: "'a::{zero,plus,minus,ord} Parameters \<Rightarrow> 'a Atom \<Rightarrow> 'a Atom" where
  "apply_pbc para atom =
     (let N = para_N para;
          (x, y, z) =
            launch ((N - 1) sdiv BLOCK_SIZE + 1) (nat BLOCK_SIZE)
              (\<lambda>blockIdx blockDim threadIdx.
                 gpu_apply_pbc blockIdx blockDim threadIdx
                   N (para_pbc_x para) (para_pbc_y para) (para_pbc_z para)
                   (atom_box_length atom))
              (atom_x atom, atom_y atom, atom_z atom)
      in atom\<lparr>atom_x := x, atom_y := y, atom_z := z\<rparr>)"

definition update_xyz0 :: "'a Parameters \<Rightarrow> 'a Atom \<Rightarrow> 'a Atom" where
  "update_xyz0 para atom =
     (let N = para_N para;
          (x0, y0, z0) =
            launch ((N - 1) sdiv BLOCK_SIZE + 1) (nat BLOCK_SIZE)
              (\<lambda>blockIdx blockDim threadIdx.
                 gpu_update_xyz0 blockIdx blockDim threadIdx
                   N (atom_x atom) (atom_y atom) (atom_z atom))
              (atom_x0 atom, atom_y0 atom, atom_z0 atom)
      in atom\<lparr>atom_x0 := x0, atom_y0 := y0, atom_z0 := z0\<rparr>)"

subsection \<open>check_bound\<close>

text \<open>
  The loop of \<^verbatim>\<open>check_bound\<close> over \<open>n = 0, ..., N - 1\<close>: it prints one line for each
  \<open>n\<close> with \<^verbatim>\<open>cpu_NN[n] > para->neighbor.MN\<close> and sets \<open>flag\<close>.
\<close>

definition check_bound_loop :: "int \<Rightarrow> int \<Rightarrow> int list \<Rightarrow> message list \<times> int" where
  "check_bound_loop N MN cpu_NN =
     fold (\<lambda>n (out, flag).
             if cpu_NN ! n > MN then (out @ [Error_NN (int n) (cpu_NN ! n) MN], 1)
             else (out, flag))
       [0..<nat N] ([], 0)"

definition check_bound :: "'a Parameters \<Rightarrow> 'a Atom \<Rightarrow> message list \<times> 'a Atom outcome" where
  "check_bound para atom =
     (let N = para_N para;
          cpu_NN = atom_NN atom;
          (out, flag) = check_bound_loop N (para_MN para) cpu_NN
      in if flag = 1 then (out, Exits 1) else (out, Returns atom))"

subsection \<open>find_neighbor: the choice of the method\<close>

text \<open>
  \<^verbatim>\<open>cpu_box[d] / rc\<close> is the quotient as the machine computes it: rounded to the precision
  of \<^verbatim>\<open>real\<close> (float or double), and an infinity or a NaN for \<open>rc = 0\<close>. The exact quotient
  \<open>l / rc\<close> of two real numbers is another number: for the doubles nearest to 6.3 and
  2.1 it is below 3, and the quotient computed is 3. So the division is a parameter \<open>fdiv\<close> of the host code: \<open>fdiv l rc\<close> is
  the number computed, and \<open>None\<close> when the result is not a finite number.
\<close>

type_synonym division = "real \<Rightarrow> real \<Rightarrow> real option"

text \<open>
  \<^verbatim>\<open>cell_n = floor(cpu_box[d] / rc)\<close>: the quotient, rounded down (\<^verbatim>\<open>floor\<close> is exact),
  converted to \<^verbatim>\<open>int\<close>. The conversion of a value outside the range of \<^verbatim>\<open>int\<close>, of an
  infinity or of a NaN has no defined behaviour in C: \<open>None\<close>.
\<close>

definition cell_number :: "division \<Rightarrow> real \<Rightarrow> real \<Rightarrow> int option" where
  "cell_number fdiv l rc =
     (case fdiv l rc of
        None \<Rightarrow> None
      | Some q \<Rightarrow>
          (let c = \<lfloor>q\<rfloor>
           in if INT_MIN \<le> c \<and> c \<le> INT_MAX then Some c else None))"

text \<open>
  The product of two \<^verbatim>\<open>int\<close>s as the compiled code computes it: modulo \<open>2\<^sup>3\<^sup>2\<close>, in two's
  complement. (In C a signed overflow has no defined behaviour.)
\<close>

definition int_times :: "int \<Rightarrow> int \<Rightarrow> int" where
  "int_times a b = (a * b + 2 ^ 31) mod 2 ^ 32 - 2 ^ 31"

text \<open>
  One of the three blocks \<^verbatim>\<open>if (para->pbc_x) { cell_n_x = floor(cpu_box[0] / rc);
  if (cell_n_x < 3) {use_ON2 = 1;} } else {cell_n_x = 1;}\<close>: it yields the cell number of
  the axis and the flag \<open>use_ON2\<close> as it leaves it.
\<close>

definition axis_cells ::
  "division \<Rightarrow> int \<Rightarrow> real \<Rightarrow> real \<Rightarrow> int \<Rightarrow> (int \<times> int) option" where
  "axis_cells fdiv pbc l rc use_ON2 =
     (if pbc \<noteq> 0 then
        do { cell_n \<leftarrow> cell_number fdiv l rc;
             Some (cell_n, if cell_n < 3 then 1 else use_ON2) }
      else Some (1, use_ON2))"

text \<open>
  \<^verbatim>\<open>find_neighbor(para, atom)\<close>. The two builders \<^verbatim>\<open>find_neighbor_ON1\<close> and
  \<^verbatim>\<open>find_neighbor_ON2\<close> are defined in other files: they are parameters, functions from
  the state to the state. \<open>DEBUG\<close> says whether the file is compiled with \<^verbatim>\<open>-DDEBUG\<close>,
  \<open>fdiv\<close> is the division of \<^verbatim>\<open>real\<close>. The result is \<open>None\<close> where a conversion to \<^verbatim>\<open>int\<close>
  has no defined behaviour.
\<close>

definition find_neighbor ::
  "bool \<Rightarrow> division \<Rightarrow> (real Parameters \<Rightarrow> real Atom \<Rightarrow> int \<Rightarrow> int \<Rightarrow> int \<Rightarrow> real Atom) \<Rightarrow>
   (real Parameters \<Rightarrow> real Atom \<Rightarrow> real Atom) \<Rightarrow>
   real Parameters \<Rightarrow> real Atom \<Rightarrow> real Atom option" where
  "find_neighbor DEBUG fdiv find_neighbor_ON1 find_neighbor_ON2 para atom =
     (if DEBUG then Some (find_neighbor_ON2 para atom)
      else do {
        let rc = para_rc para;
        let cpu_box = take DIM (atom_box_length atom);
        let use_ON2 = 0;
        (cell_n_x, use_ON2) \<leftarrow> axis_cells fdiv (para_pbc_x para) (cpu_box ! 0) rc use_ON2;
        (cell_n_y, use_ON2) \<leftarrow> axis_cells fdiv (para_pbc_y para) (cpu_box ! 1) rc use_ON2;
        (cell_n_z, use_ON2) \<leftarrow> axis_cells fdiv (para_pbc_z para) (cpu_box ! 2) rc use_ON2;
        let number_of_cells = int_times (int_times cell_n_x cell_n_y) cell_n_z;
        let use_ON2 = (if number_of_cells < NUM_OF_CELLS then 1 else use_ON2);
        if use_ON2 \<noteq> 0 then Some (find_neighbor_ON2 para atom)
        else Some (find_neighbor_ON1 para atom cell_n_x cell_n_y cell_n_z)
      })"

subsection \<open>find_neighbor: the driver\<close>

text \<open>
  \<^verbatim>\<open>find_neighbor(para, atom, is_first)\<close>. It returns the lines printed and how the call
  ends: an exit in \<^verbatim>\<open>check_bound\<close> ends the run before the kernels that follow it.
\<close>

definition find_neighbor_driver ::
  "bool \<Rightarrow> division \<Rightarrow> (real Parameters \<Rightarrow> real Atom \<Rightarrow> int \<Rightarrow> int \<Rightarrow> int \<Rightarrow> real Atom) \<Rightarrow>
   (real Parameters \<Rightarrow> real Atom \<Rightarrow> real Atom) \<Rightarrow>
   real Parameters \<Rightarrow> real Atom \<Rightarrow> int \<Rightarrow> message list \<times> real Atom outcome" where
  "find_neighbor_driver DEBUG fdiv find_neighbor_ON1 find_neighbor_ON2 para atom is_first =
     (if is_first = 1 then
        (case find_neighbor DEBUG fdiv find_neighbor_ON1 find_neighbor_ON2 para atom of
           None \<Rightarrow> ([], Undefined)
         | Some atom \<Rightarrow>
             (case check_bound para atom of
                (out, Returns atom) \<Rightarrow> (out, Returns (update_xyz0 para atom))
              | (out, Exits status) \<Rightarrow> (out, Exits status)
              | (out, Undefined) \<Rightarrow> (out, Undefined)))
      else
        (let update = check_atom_distance para atom
         in if update \<noteq> 0 then
              (case find_neighbor DEBUG fdiv find_neighbor_ON1 find_neighbor_ON2 para atom of
                 None \<Rightarrow> ([], Undefined)
               | Some atom \<Rightarrow>
                   (case check_bound para atom of
                      (out, Returns atom) \<Rightarrow>
                        (out, Returns (update_xyz0 para (apply_pbc para atom)))
                    | (out, Exits status) \<Rightarrow> (out, Exits status)
                    | (out, Undefined) \<Rightarrow> (out, Undefined)))
            else ([], Returns atom)))"

subsection \<open>Functions used to state the properties\<close>

text \<open>
  What the three blocks \<^verbatim>\<open>if (x[n] < 0) {x[n] += lx;} else if (x[n] > lx) {x[n] -= lx;}\<close>
  of \<^verbatim>\<open>gpu_apply_pbc\<close> do to one coordinate \<open>c\<close> of an axis of length \<open>l\<close>.
\<close>

definition wrap :: "'a::{zero,plus,minus,ord} \<Rightarrow> 'a \<Rightarrow> 'a" where
  "wrap l c = (if c < 0 then c + l else if c > l then c - l else c)"

text \<open>
  The current coordinates and the reference coordinates along axis \<open>d\<close> (0, 1, 2 for x, y,
  z), and the flag of that axis.
\<close>

definition coordinate :: "nat \<Rightarrow> 'a Atom \<Rightarrow> 'a list" where
  "coordinate d atom = (if d = 0 then atom_x atom else if d = 1 then atom_y atom else atom_z atom)"

definition reference :: "nat \<Rightarrow> 'a Atom \<Rightarrow> 'a list" where
  "reference d atom =
     (if d = 0 then atom_x0 atom else if d = 1 then atom_y0 atom else atom_z0 atom)"

definition periodic :: "nat \<Rightarrow> 'a Parameters \<Rightarrow> int" where
  "periodic d para =
     (if d = 0 then para_pbc_x para else if d = 1 then para_pbc_y para else para_pbc_z para)"

text \<open>
  Particle \<open>n\<close> has moved by more than \<open>d2\<close> (squared) since the reference snapshot: the
  test of \<^verbatim>\<open>check_atom_distance_1\<close>, with the arrays of the state.
\<close>

definition moved :: "'a::{plus,minus,times,ord} \<Rightarrow> 'a Atom \<Rightarrow> nat \<Rightarrow> bool" where
  "moved d2 atom n \<longleftrightarrow>
     (let dx = atom_x atom ! n - atom_x0 atom ! n;
          dy = atom_y atom ! n - atom_y0 atom ! n;
          dz = atom_z atom ! n - atom_z0 atom ! n
      in (dx * dx + dy * dy + dz * dz) > d2)"


text \<open>
  \<open>int_range\<close>: the value fits a C \<^verbatim>\<open>int\<close>. \<open>cell_count\<close>: the cell number of an axis in
  the words of the specification, \<open>floor(boxLength / cutoff)\<close> if the axis is periodic and
  1 if it is not, where the quotient is the one computed and the number is defined if
  the quotient is a finite number whose floor fits a C \<^verbatim>\<open>int\<close>.
\<close>

definition int_range :: "int \<Rightarrow> bool" where
  "int_range i \<longleftrightarrow> INT_MIN \<le> i \<and> i \<le> INT_MAX"


subsection \<open>A concrete state\<close>

text \<open>
  Four particles in a box of edge 10, periodic along x and y, cutoff 2. Particle 0 is more
  than one box length outside the box along x; particle 2 has moved by 1 since the
  reference snapshot.
\<close>

definition para_example :: "real Parameters" where
  "para_example =
     \<lparr>para_N = 4, para_pbc_x = 1, para_pbc_y = 1, para_pbc_z = 0, para_MN = 3, para_rc = 2\<rparr>"

definition atom_example :: "real Atom" where
  "atom_example =
     \<lparr>atom_x = [-15, -3, 12, 10], atom_y = [0, 10, -1, 5], atom_z = [-1, 0, 20, 3],
      atom_x0 = [-15, -3, 11, 10], atom_y0 = [0, 10, -1, 5], atom_z0 = [-1, 0, 20, 3],
      atom_box_length = [10, 10, 10], atom_NN = [3, 3, 3, 3],
      atom_NL = [1, 2, 3, 0, 2, 3, 0, 1, 3, 0, 1, 2]\<rparr>"

text \<open>
  A division without rounding. The quotients of the concrete states below (10 / 2,
  20 / 2, 1300 / 1) are exact in float and in double.
\<close>

definition exact_division :: division where
  "exact_division l rc = (if rc = 0 then None else Some (l / rc))"

text \<open>
  Two builders for the concrete state: each gives particles 0 and 1 one neighbor. The
  first one leaves the three cell numbers it is given in the last entries of \<open>atom_NL\<close>, so
  that the states the two builders leave differ.
\<close>

definition ON1_example :: "real Parameters \<Rightarrow> real Atom \<Rightarrow> int \<Rightarrow> int \<Rightarrow> int \<Rightarrow> real Atom" where
  "ON1_example para atom cell_n_x cell_n_y cell_n_z =
     atom\<lparr>atom_NN := [1, 1, 0, 0],
          atom_NL := [1, 0, 0, 0, 0, 0, 0, 0, 0, cell_n_x, cell_n_y, cell_n_z]\<rparr>"

definition ON2_example :: "real Parameters \<Rightarrow> real Atom \<Rightarrow> real Atom" where
  "ON2_example para atom =
     atom\<lparr>atom_NN := [1, 1, 0, 0], atom_NL := [1, 0, 0, 0, 0, 0, 0, 0, 0, 0, 0, 0]\<rparr>"

section \<open>Properties\<close>

subsection \<open>Launches of the two kernels without a barrier\<close>

lemma block_threads:
  "fold (\<lambda>threadIdx. T (k * b + threadIdx)) [0..<b] s = fold T [k * b..<k * b + b] s"
proof -
  have "[k * b..<k * b + b] = map (\<lambda>t. k * b + t) [0..<b]"
    by (simp add: map_add_upt add.commute)
  then show ?thesis by (simp add: fold_map comp_def)
qed

lemma launch_threads:
  "launch g b (\<lambda>blockIdx blockDim threadIdx. T (blockIdx * blockDim + threadIdx)) s
   = fold T [0..<nat g * b] s"
proof -
  define G where "G = (\<lambda>blockIdx. fold (\<lambda>threadIdx. T (blockIdx * b + threadIdx)) [0..<b])"
  have "fold G [0..<k] s = fold T [0..<k * b] s" for k
  proof (induction k)
    case 0
    show ?case by simp
  next
    case (Suc k)
    have "fold G [0..<Suc k] s = G k (fold G [0..<k] s)" by simp
    also have "\<dots> = fold T [k * b..<k * b + b] (fold G [0..<k] s)"
      unfolding G_def by (rule block_threads)
    also have "\<dots> = fold T [k * b..<k * b + b] (fold T [0..<k * b] s)"
      by (simp only: Suc)
    also have "\<dots> = fold T ([0..<k * b] @ [k * b..<k * b + b]) s"
      by (simp only: fold_append comp_apply)
    also have "[0..<k * b] @ [k * b..<k * b + b] = [0..<k * b + b]"
      by (rule upt_add_eq_append [OF le0, symmetric])
    also have "k * b + b = Suc k * b" by simp
    finally show ?case .
  qed
  then show ?thesis by (simp add: launch_def G_def)
qed

lemma fold_triple:
  "fold (\<lambda>n (a, b, c). (F n a, G n b, H n c)) ns (a, b, c)
   = (fold F ns a, fold G ns b, fold H ns c)"
  by (induction ns arbitrary: a b c) auto

lemma fold_pointwise:
  "fold (\<lambda>n xs. xs[n := f n (xs ! n)]) [0..<K] xs
   = map (\<lambda>i. if i < K then f i (xs ! i) else xs ! i) [0..<length xs]"
proof (induction K)
  case 0
  show ?case by (simp add: map_nth)
next
  case (Suc K)
  show ?case
    by (rule nth_equalityI) (auto simp: Suc nth_list_update less_Suc_eq)
qed

lemma grid_covers: "N \<le> int (nat ((N - 1) sdiv BLOCK_SIZE + 1) * nat BLOCK_SIZE)"
proof (cases "1 \<le> N")
  case True
  then have "(N - 1) sdiv 128 = (N - 1) div 128"
    by (simp add: signed_divide_int_def sgn_if)
  moreover have "N \<le> ((N - 1) div 128 + 1) * 128"
  proof -
    define q where "q = (N - 1) div 128"
    define r where "r = (N - 1) mod 128"
    have "N - 1 = q * 128 + r" by (simp add: q_def r_def)
    moreover have "r < 128" by (simp add: r_def)
    ultimately have "N \<le> (q + 1) * 128" by (simp add: algebra_simps)
    then show ?thesis by (simp only: q_def)
  qed
  moreover have "0 \<le> (N - 1) div 128" using True by simp
  ultimately show ?thesis by (simp add: BLOCK_SIZE_def nat_add_distrib nat_mult_distrib)
next
  case False
  then have "N \<le> 0" by simp
  also have "0 \<le> int (nat ((N - 1) sdiv BLOCK_SIZE + 1) * nat BLOCK_SIZE)"
    by (rule of_nat_0_le_iff)
  finally show ?thesis .
qed

lemma launch_apply_pbc:
  "launch g b (\<lambda>blockIdx blockDim threadIdx.
                 gpu_apply_pbc blockIdx blockDim threadIdx N px py pz box) s
   = fold (\<lambda>n (x, y, z).
             (x[n := (if int n < N \<and> px = 1 then wrap (box ! 0) (x ! n) else x ! n)],
              y[n := (if int n < N \<and> py = 1 then wrap (box ! 1) (y ! n) else y ! n)],
              z[n := (if int n < N \<and> pz = 1 then wrap (box ! 2) (z ! n) else z ! n)]))
       [0..<nat g * b] s"
proof -
  define T where "T = (\<lambda>n (x, y, z).
             (x[n := (if int n < N \<and> px = 1 then wrap (box ! 0) (x ! n) else x ! n)],
              y[n := (if int n < N \<and> py = 1 then wrap (box ! 1) (y ! n) else y ! n)],
              z[n := (if int n < N \<and> pz = 1 then wrap (box ! 2) (z ! n) else z ! n)]))"
  have axis: "(if p = 1 then (if c ! n < 0 then c[n := c ! n + l]
                 else if c ! n > l then c[n := c ! n - l] else c) else c)
              = c[n := (if int n < N \<and> p = 1 then wrap l (c ! n) else c ! n)]"
    if "int n < N" for p :: int and c :: "'a list" and l n
    using that by (simp add: wrap_def)
  have "gpu_apply_pbc blockIdx blockDim threadIdx N px py pz box s
        = T (blockIdx * blockDim + threadIdx) s" for blockIdx blockDim threadIdx s
  proof (cases "int (blockIdx * blockDim + threadIdx) < N")
    case True
    obtain x y z where s: "s = (x, y, z)" by (cases s)
    show ?thesis
      unfolding gpu_apply_pbc_def T_def s Let_def
      by (simp only: axis [OF True] prod.case if_True True)
  next
    case False
    obtain x y z where s: "s = (x, y, z)" by (cases s)
    show ?thesis
      unfolding gpu_apply_pbc_def T_def s Let_def
      using False by simp
  qed
  then have "(\<lambda>blockIdx blockDim threadIdx.
                 gpu_apply_pbc blockIdx blockDim threadIdx N px py pz box)
             = (\<lambda>blockIdx blockDim threadIdx. T (blockIdx * blockDim + threadIdx))"
    by (simp only: fun_eq_iff) simp
  then show ?thesis
    using launch_threads [of g b T s] by (simp only: T_def)
qed

lemma wrap_fold:
  assumes "N \<le> int K"
  shows "fold (\<lambda>n xs. xs[n := (if int n < N \<and> p = 1 then wrap l (xs ! n) else xs ! n)]) [0..<K] xs
         = map (\<lambda>i. if int i < N \<and> p = 1 then wrap l (xs ! i) else xs ! i) [0..<length xs]"
proof -
  have "int i < N \<Longrightarrow> i < K" for i using assms by linarith
  then have "(\<lambda>i. if i < K then (if int i < N \<and> p = 1 then wrap l (xs ! i) else xs ! i) else xs ! i)
             = (\<lambda>i. if int i < N \<and> p = 1 then wrap l (xs ! i) else xs ! i)"
    by (auto simp: fun_eq_iff)
  then show ?thesis
    using fold_pointwise [of "\<lambda>n c. if int n < N \<and> p = 1 then wrap l c else c" K xs]
    by simp
qed

lemma apply_pbc_eq:
  "apply_pbc para atom =
     atom\<lparr>atom_x := map (\<lambda>i. if int i < para_N para \<and> para_pbc_x para = 1
                              then wrap (atom_box_length atom ! 0) (atom_x atom ! i) else atom_x atom ! i)
                        [0..<length (atom_x atom)],
          atom_y := map (\<lambda>i. if int i < para_N para \<and> para_pbc_y para = 1
                              then wrap (atom_box_length atom ! 1) (atom_y atom ! i) else atom_y atom ! i)
                        [0..<length (atom_y atom)],
          atom_z := map (\<lambda>i. if int i < para_N para \<and> para_pbc_z para = 1
                              then wrap (atom_box_length atom ! 2) (atom_z atom ! i) else atom_z atom ! i)
                        [0..<length (atom_z atom)]\<rparr>"
  unfolding apply_pbc_def Let_def
  by (simp only: launch_apply_pbc fold_triple wrap_fold [OF grid_covers] prod.case)

lemma launch_update_xyz0:
  "launch g b (\<lambda>blockIdx blockDim threadIdx.
                 gpu_update_xyz0 blockIdx blockDim threadIdx N x y z) s
   = fold (\<lambda>n (x0, y0, z0).
             (x0[n := (if int n < N then x ! n else x0 ! n)],
              y0[n := (if int n < N then y ! n else y0 ! n)],
              z0[n := (if int n < N then z ! n else z0 ! n)]))
       [0..<nat g * b] s"
proof -
  define T where "T = (\<lambda>n (x0, y0, z0).
             (x0[n := (if int n < N then x ! n else x0 ! n)],
              y0[n := (if int n < N then y ! n else y0 ! n)],
              z0[n := (if int n < N then z ! n else z0 ! n)]))"
  have "gpu_update_xyz0 blockIdx blockDim threadIdx N x y z s
        = T (blockIdx * blockDim + threadIdx) s" for blockIdx blockDim threadIdx s
  proof -
    obtain x0 y0 z0 where s: "s = (x0, y0, z0)" by (cases s)
    show ?thesis
      unfolding gpu_update_xyz0_def T_def s Let_def by simp
  qed
  then have "(\<lambda>blockIdx blockDim threadIdx.
                 gpu_update_xyz0 blockIdx blockDim threadIdx N x y z)
             = (\<lambda>blockIdx blockDim threadIdx. T (blockIdx * blockDim + threadIdx))"
    by (simp only: fun_eq_iff) simp
  then show ?thesis
    using launch_threads [of g b T s] by (simp only: T_def)
qed

lemma copy_fold:
  assumes "N \<le> int K"
  shows "fold (\<lambda>n xs. xs[n := (if int n < N then src ! n else xs ! n)]) [0..<K] xs
         = map (\<lambda>i. if int i < N then src ! i else xs ! i) [0..<length xs]"
proof -
  have "int i < N \<Longrightarrow> i < K" for i using assms by linarith
  then have "(\<lambda>i. if i < K then (if int i < N then src ! i else xs ! i) else xs ! i)
             = (\<lambda>i. if int i < N then src ! i else xs ! i)"
    by (auto simp: fun_eq_iff)
  then show ?thesis
    using fold_pointwise [of "\<lambda>n c. if int n < N then src ! n else c" K xs]
    by simp
qed

lemma update_xyz0_eq:
  "update_xyz0 para atom =
     atom\<lparr>atom_x0 := map (\<lambda>i. if int i < para_N para then atom_x atom ! i else atom_x0 atom ! i)
                        [0..<length (atom_x0 atom)],
          atom_y0 := map (\<lambda>i. if int i < para_N para then atom_y atom ! i else atom_y0 atom ! i)
                        [0..<length (atom_y0 atom)],
          atom_z0 := map (\<lambda>i. if int i < para_N para then atom_z atom ! i else atom_z0 atom ! i)
                        [0..<length (atom_z0 atom)]\<rparr>"
  unfolding update_xyz0_def Let_def
  by (simp only: launch_update_xyz0 fold_triple copy_fold [OF grid_covers] prod.case)


subsection \<open>The periodic wrap\<close>

lemma apply_pbc_coordinate:
  "d < 3 \<Longrightarrow>
   coordinate d (apply_pbc para atom) =
     map (\<lambda>i. if int i < para_N para \<and> periodic d para = 1
              then wrap (atom_box_length atom ! d) (coordinate d atom ! i)
              else coordinate d atom ! i)
       [0..<length (coordinate d atom)]"
proof -
  assume "d < 3"
  then consider "d = 0" | "d = 1" | "d = 2" by linarith
  then show ?thesis
    by cases (simp_all add: apply_pbc_eq coordinate_def periodic_def)
qed

lemma apply_pbc_others:
  "atom_x0 (apply_pbc para atom) = atom_x0 atom"
  "atom_y0 (apply_pbc para atom) = atom_y0 atom"
  "atom_z0 (apply_pbc para atom) = atom_z0 atom"
  "atom_NN (apply_pbc para atom) = atom_NN atom"
  "atom_NL (apply_pbc para atom) = atom_NL atom"
  "atom_box_length (apply_pbc para atom) = atom_box_length atom"
  by (simp_all add: apply_pbc_eq)

lemma upt_example: "[0..<nat (para_N para_example)] = [0, 1, 2, 3]"
  by (simp add: para_example_def upt_rec)


text \<open>
  C10. \<^verbatim>\<open>gpu_apply_pbc\<close>, as the driver launches it, changes nothing but the current
  positions: the reference positions, the neighbor counts and indices and the box lengths
  are as before (the flags are passed by value). Along an axis whose flag is not 1 no
  coordinate changes; the coordinates of indices \<open>n \<ge> N\<close> and the lengths of the arrays
  never change.
\<close>

theorem apply_pbc_frame:
  "atom_x0 (apply_pbc para atom) = atom_x0 atom \<and>
   atom_y0 (apply_pbc para atom) = atom_y0 atom \<and>
   atom_z0 (apply_pbc para atom) = atom_z0 atom \<and>
   atom_NN (apply_pbc para atom) = atom_NN atom \<and>
   atom_NL (apply_pbc para atom) = atom_NL atom \<and>
   atom_box_length (apply_pbc para atom) = atom_box_length atom \<and>
   (\<forall>d<3. periodic d para \<noteq> 1 \<longrightarrow> coordinate d (apply_pbc para atom) = coordinate d atom) \<and>
   (\<forall>d<3. \<forall>n<length (coordinate d atom). \<not> int n < para_N para \<longrightarrow>
      coordinate d (apply_pbc para atom) ! n = coordinate d atom ! n) \<and>
   (\<forall>d<3. length (coordinate d (apply_pbc para atom)) = length (coordinate d atom))"
  by (simp add: apply_pbc_others apply_pbc_coordinate map_nth)

theorem apply_pbc_frame_witness:
  "periodic 2 para_example \<noteq> 1 \<and>
   coordinate 2 (apply_pbc para_example atom_example) = [-1, 0, 20, 3] \<and>
   atom_x0 (apply_pbc para_example atom_example) = [-15, -3, 11, 10]"
proof -
  have "periodic 2 para_example \<noteq> 1" by (simp add: periodic_def para_example_def)
  moreover from apply_pbc_frame [of para_example atom_example]
  have "periodic 2 para_example \<noteq> 1 \<longrightarrow>
        coordinate 2 (apply_pbc para_example atom_example) = coordinate 2 atom_example"
    and "atom_x0 (apply_pbc para_example atom_example) = atom_x0 atom_example"
    by simp_all
  ultimately show ?thesis by (simp add: coordinate_def atom_example_def)
qed

lemma wrap_fixed:
  fixes l c :: "'a::linordered_ab_group_add"
  assumes "0 \<le> c" "c \<le> l"
  shows "wrap l c = c"
  using assms by (auto simp: wrap_def)

lemma wrap_in_box:
  fixes l c :: "'a::linordered_ab_group_add"
  assumes "- l \<le> c" "c \<le> l + l"
  shows "0 \<le> wrap l c \<and> wrap l c \<le> l"
proof (cases "c < 0")
  case True
  have "- l + l \<le> c + l" using assms(1) by (rule add_right_mono)
  moreover have "c + l \<le> 0 + l" using True by (intro add_right_mono less_imp_le)
  ultimately show ?thesis using True by (simp add: wrap_def)
next
  case False
  show ?thesis
  proof (cases "l < c")
    case True
    have "0 \<le> c - l" using True by simp
    moreover have "c - l \<le> l" using assms(2) by (simp add: diff_le_eq)
    ultimately show ?thesis using True False by (simp add: wrap_def)
  next
    case nl: False
    have "wrap l c = c" using False nl by (simp add: wrap_def)
    moreover have "0 \<le> c" "c \<le> l" using False nl by simp_all
    ultimately show ?thesis by simp
  qed
qed


text \<open>
  C9. The comparisons of the wrap are strict. For a particle \<open>n < N\<close> and an axis \<open>d\<close> with
  flag 1, the new coordinate is \<open>c + l\<close> if \<open>c < 0\<close>, else \<open>c - l\<close> if \<open>c > l\<close>, else \<open>c\<close>.
  So, for a box length \<open>l \<ge> 0\<close>, a coordinate that is exactly 0 or exactly \<open>l\<close> stays, and
  a coordinate within one box length of the box (\<open>- l \<le> c \<le> 2 l\<close>) ends in the closed
  interval \<open>[0, l]\<close>. The first part holds in any arithmetic; the interval is proved for
  exact arithmetic (an ordered group).
\<close>

theorem apply_pbc_strict:
  fixes atom :: "'a::linordered_ab_group_add Atom"
  assumes "d < 3" and "int n < para_N para" and "n < length (coordinate d atom)"
    and "periodic d para = 1"
  shows
    "(let l = atom_box_length atom ! d;
          c = coordinate d atom ! n;
          c' = coordinate d (apply_pbc para atom) ! n
      in c' = (if c < 0 then c + l else if c > l then c - l else c) \<and>
         (0 \<le> l \<longrightarrow> (c = 0 \<longrightarrow> c' = 0) \<and> (c = l \<longrightarrow> c' = l)) \<and>
         (- l \<le> c \<and> c \<le> l + l \<longrightarrow> 0 \<le> c' \<and> c' \<le> l))"
proof -
  have "coordinate d (apply_pbc para atom) ! n
        = wrap (atom_box_length atom ! d) (coordinate d atom ! n)"
    using assms by (simp add: apply_pbc_coordinate)
  moreover have "wrap l (0::'a) = 0" if "0 \<le> l" for l
    using that by (simp add: wrap_fixed)
  moreover have "wrap l l = l" if "0 \<le> l" for l :: 'a
    using that by (simp add: wrap_fixed)
  ultimately show ?thesis
    using wrap_in_box [of "atom_box_length atom ! d" "coordinate d atom ! n"]
    by (simp add: Let_def) (simp add: wrap_def)
qed

theorem apply_pbc_strict_witness:
  "coordinate 0 (apply_pbc para_example atom_example) ! 1 = 7 \<and>
   coordinate 0 (apply_pbc para_example atom_example) ! 3 = 10"
proof -
  have h: "(0::nat) < 3" "periodic 0 para_example = 1"
    by (simp_all add: periodic_def para_example_def)
  have "coordinate 0 (apply_pbc para_example atom_example) ! 1 = 7"
    using apply_pbc_strict [of 0 1 para_example atom_example, OF h(1) _ _ h(2)]
    by (simp add: Let_def coordinate_def para_example_def atom_example_def)
  moreover have "coordinate 0 (apply_pbc para_example atom_example) ! 3 = 10"
    using apply_pbc_strict [of 0 3 para_example atom_example, OF h(1) _ _ h(2)]
    by (simp add: Let_def coordinate_def para_example_def atom_example_def)
  ultimately show ?thesis by simp
qed






subsection \<open>The displacement check\<close>

lemma length_add_step [simp]: "length (add_step a k s) = length s"
  by (simp add: add_step_def)

lemma sum_list_take:
  fixes xs :: "int32 list"
  assumes "k \<le> length xs"
  shows "sum_list (take k xs) = (\<Sum>i = 0..<k. xs ! i)"
proof -
  have "sum_list (take k xs) = (\<Sum>i = 0..<length (take k xs). take k xs ! i)"
    by (rule sum_list_sum_nth)
  also have "\<dots> = (\<Sum>i = 0..<k. take k xs ! i)" using assms by simp
  also have "\<dots> = (\<Sum>i = 0..<k. xs ! i)" by (rule sum.cong) simp_all
  finally show ?thesis .
qed

lemma add_step_sum:
  assumes "k \<le> a" and "k + k \<le> length s"
  shows "sum_list (take k (add_step a k s)) = sum_list (take (k + k) s)"
proof -
  have "sum_list (take k (add_step a k s)) = (\<Sum>i = 0..<k. add_step a k s ! i)"
    using assms by (intro sum_list_take) simp
  also have "\<dots> = (\<Sum>i = 0..<k. s ! i + s ! (i + k))"
    using assms by (intro sum.cong) (simp_all add: add_step_def)
  also have "\<dots> = (\<Sum>i = 0..<k. s ! i) + (\<Sum>i = 0..<k. s ! (i + k))"
    by (rule sum.distrib)
  also have "(\<Sum>i = 0..<k. s ! (i + k)) = (\<Sum>i = 0 + k..<k + k. s ! i)"
    by (rule sum.shift_bounds_nat_ivl [symmetric])
  also have "(\<Sum>i = 0..<k. s ! i) + (\<Sum>i = 0 + k..<k + k. s ! i) = (\<Sum>i = 0..<k + k. s ! i)"
    by (simp only: add_0 sum.atLeastLessThan_concat [OF le0 le_add1])
  also have "\<dots> = sum_list (take (k + k) s)"
    using assms by (intro sum_list_take [symmetric])
  finally show ?thesis .
qed

lemma warp_reduce_sum:
  assumes "64 \<le> length s"
  shows "warp_reduce s ! 0 = sum_list (take 64 s)"
proof -
  define s1 where "s1 = add_step 32 32 s"
  define s2 where "s2 = add_step 32 16 s1"
  define s3 where "s3 = add_step 32 8 s2"
  define s4 where "s4 = add_step 32 4 s3"
  define s5 where "s5 = add_step 32 2 s4"
  define s6 where "s6 = add_step 32 1 s5"
  have len: "length s1 = length s" "length s2 = length s" "length s3 = length s"
    "length s4 = length s" "length s5 = length s" "length s6 = length s"
    by (simp_all add: s1_def s2_def s3_def s4_def s5_def s6_def)
  have "sum_list (take 32 s1) = sum_list (take 64 s)"
    using add_step_sum [of 32 32 s] assms by (simp add: s1_def)
  moreover have "sum_list (take 16 s2) = sum_list (take 32 s1)"
    using add_step_sum [of 16 32 s1] assms len by (simp add: s2_def)
  moreover have "sum_list (take 8 s3) = sum_list (take 16 s2)"
    using add_step_sum [of 8 32 s2] assms len by (simp add: s3_def)
  moreover have "sum_list (take 4 s4) = sum_list (take 8 s3)"
    using add_step_sum [of 4 32 s3] assms len by (simp add: s4_def)
  moreover have "sum_list (take 2 s5) = sum_list (take 4 s4)"
    using add_step_sum [of 2 32 s4] assms len by (simp add: s5_def)
  moreover have "sum_list (take 1 s6) = sum_list (take 2 s5)"
    using add_step_sum [of 1 32 s5] assms len by (simp add: s6_def numeral_2_eq_2)
  moreover have "sum_list (take 1 s6) = s6 ! 0"
    using assms len by (cases s6) simp_all
  moreover have "warp_reduce s = s6"
    by (simp add: warp_reduce_def Let_def s1_def s2_def s3_def s4_def s5_def s6_def)
  ultimately show ?thesis by simp
qed

lemma tree_reduce_sum:
  assumes "length s = 1024"
  shows "tree_reduce s ! 0 = sum_list s"
proof -
  define s1 where "s1 = add_step 512 512 s"
  define s2 where "s2 = add_step 256 256 s1"
  define s3 where "s3 = add_step 128 128 s2"
  define s4 where "s4 = add_step 64 64 s3"
  have len: "length s1 = 1024" "length s2 = 1024" "length s3 = 1024" "length s4 = 1024"
    using assms by (simp_all add: s1_def s2_def s3_def s4_def)
  have "sum_list (take 512 s1) = sum_list (take 1024 s)"
    using add_step_sum [of 512 512 s] assms by (simp add: s1_def)
  moreover have "sum_list (take 256 s2) = sum_list (take 512 s1)"
    using add_step_sum [of 256 256 s1] len by (simp add: s2_def)
  moreover have "sum_list (take 128 s3) = sum_list (take 256 s2)"
    using add_step_sum [of 128 128 s2] len by (simp add: s3_def)
  moreover have "sum_list (take 64 s4) = sum_list (take 128 s3)"
    using add_step_sum [of 64 64 s3] len by (simp add: s4_def)
  moreover have "warp_reduce s4 ! 0 = sum_list (take 64 s4)"
    using len by (intro warp_reduce_sum) simp
  moreover have "tree_reduce s = warp_reduce s4"
    by (simp add: tree_reduce_def Let_def s1_def s2_def s3_def s4_def)
  moreover have "take 1024 s = s" using assms by simp
  ultimately show ?thesis by simp
qed

lemma blocks_cover:
  assumes "0 < b"
  shows "N \<le> int (nat ((N - 1) sdiv b + 1) * nat b)"
proof (cases "1 \<le> N")
  case True
  define q where "q = (N - 1) div b"
  define r where "r = (N - 1) mod b"
  have "(N - 1) sdiv b = q"
    using True assms by (simp add: signed_divide_int_def sgn_if q_def)
  moreover have "N - 1 = q * b + r" by (simp add: q_def r_def)
  moreover have "r < b" using assms by (simp add: r_def)
  moreover have "0 \<le> q" using True assms by (simp add: q_def pos_imp_zdiv_nonneg_iff)
  ultimately have "N \<le> (q + 1) * b" "0 \<le> q + 1" "(N - 1) sdiv b + 1 = q + 1"
    by (simp_all add: algebra_simps)
  then show ?thesis using assms by (simp add: nat_mult_distrib)
next
  case False
  then have "N \<le> 0" by simp
  also have "0 \<le> int (nat ((N - 1) sdiv b + 1) * nat b)"
    by (rule of_nat_0_le_iff)
  finally show ?thesis .
qed

lemma sum_blocks:
  fixes f :: "nat \<Rightarrow> int32"
  assumes "\<And>n. K \<le> n \<Longrightarrow> f n = 0" and "K \<le> m * b"
  shows "(\<Sum>i = 0..<m. \<Sum>t = 0..<b. f (i * b + t)) = (\<Sum>n = 0..<K. f n)"
proof -
  have "(\<Sum>t = 0..<b. f (i * b + t)) = sum f {i * b..<i * b + b}" for i
    using sum.shift_bounds_nat_ivl [of f 0 "i * b" b] by (simp add: add.commute)
  then have "(\<Sum>i = 0..<m. \<Sum>t = 0..<b. f (i * b + t)) = (\<Sum>i<m. sum f {i * b..<i * b + b})"
    by (simp add: atLeast0LessThan)
  also have "\<dots> = sum f {..<m * b}" by (rule sum.nat_group)
  also have "\<dots> = sum f {..<K}"
    using assms by (intro sum.mono_neutral_right) auto
  finally show ?thesis by (simp add: atLeast0LessThan)
qed

lemma fold_patches:
  fixes v :: "nat \<Rightarrow> int32"
  shows "fold (\<lambda>patch s. if c patch then s + v patch else s) [0..<P] a
         = a + (\<Sum>patch = 0..<P. if c patch then v patch else 0)"
  by (induction P) simp_all

lemma count_sum:
  "(\<Sum>n = 0..<k. if P n then 1 else 0) = (of_nat (length (filter P [0..<k])) :: int32)"
  by (induction k) simp_all


lemma check_atom_distance_1_sum:
  assumes "B = 1024"
  shows "check_atom_distance_1 bid B N d2 (atom_x0 atom) (atom_y0 atom) (atom_z0 atom)
           (atom_x atom) (atom_y atom) (atom_z atom)
         = (\<Sum>tid = 0..<B. if int (bid * B + tid) < N \<and> moved d2 atom (bid * B + tid)
                            then 1 else 0)"
proof -
  define f :: "nat \<Rightarrow> int32"
    where "f = (\<lambda>tid. if int (bid * B + tid) < N \<and> moved d2 atom (bid * B + tid) then 1 else 0)"
  have "check_atom_distance_1 bid B N d2 (atom_x0 atom) (atom_y0 atom) (atom_z0 atom)
           (atom_x atom) (atom_y atom) (atom_z atom) = tree_reduce (map f [0..<B]) ! 0"
    unfolding check_atom_distance_1_def Let_def f_def moved_def
    by (intro arg_cong [where f = "\<lambda>s. tree_reduce s ! 0"] map_cong refl) simp
  also have "\<dots> = sum_list (map f [0..<B])"
  proof (rule tree_reduce_sum)
    have "length (map f [0..<B]) = B" by simp
    with assms show "length (map f [0..<B]) = 1024" by simp
  qed
  also have "\<dots> = sum f {0..<B}"
    by (simp only: interv_sum_list_conv_sum_set_nat set_upt)
  finally show ?thesis by (simp only: f_def)
qed

lemma check_atom_distance_2_sum:
  assumes "B = 1024"
  shows "check_atom_distance_2 B M g_sum_i = (\<Sum>n = 0..<nat M. g_sum_i ! n)"
proof -
  define P where "P = nat ((M - 1) sdiv 1024 + 1)"
  define h :: "nat \<Rightarrow> int32" where "h = (\<lambda>n. if int n < M then g_sum_i ! n else 0)"
  define f :: "nat \<Rightarrow> int32" where "f = (\<lambda>tid. \<Sum>patch = 0..<P. h (tid + patch * 1024))"
  have "check_atom_distance_2 B M g_sum_i = tree_reduce (map f [0..<B]) ! 0"
    unfolding check_atom_distance_2_def Let_def f_def h_def P_def
    by (intro arg_cong [where f = "\<lambda>s. tree_reduce s ! 0"] map_cong refl)
       (simp add: fold_patches)
  also have "\<dots> = sum_list (map f [0..<B])"
  proof (rule tree_reduce_sum)
    have "length (map f [0..<B]) = B" by simp
    with assms show "length (map f [0..<B]) = 1024" by simp
  qed
  also have "\<dots> = sum f {0..<B}"
    by (simp only: interv_sum_list_conv_sum_set_nat set_upt)
  also have "\<dots> = (\<Sum>tid = 0..<B. \<Sum>patch = 0..<P. h (patch * B + tid))"
    unfolding f_def using assms by (simp only: add.commute)
  also have "\<dots> = (\<Sum>patch = 0..<P. \<Sum>tid = 0..<B. h (patch * B + tid))"
    by (rule sum.swap)
  also have "\<dots> = (\<Sum>n = 0..<nat M. h n)"
  proof (rule sum_blocks)
    show "h n = 0" if "nat M \<le> n" for n
    proof -
      from that have "\<not> int n < M" by linarith
      then show ?thesis by (simp add: h_def)
    qed
    have "M \<le> int (P * nat 1024)"
      unfolding P_def by (rule blocks_cover) simp
    then have "nat M \<le> P * nat 1024" by linarith
    then show "nat M \<le> P * B" using assms by simp
  qed
  also have "\<dots> = (\<Sum>n = 0..<nat M. g_sum_i ! n)"
  proof (rule sum.cong)
    fix n assume "n \<in> {0..<nat M}"
    then have "n < nat M" by simp
    then have "int n < M" by linarith
    then show "h n = g_sum_i ! n" by (simp add: h_def)
  qed simp
  finally show ?thesis .
qed

lemma check_atom_distance_counts:
  "check_atom_distance_with d2 para atom
   = of_nat (length (filter (moved d2 atom) [0..<nat (para_N para)]))"
proof -
  define N where "N = para_N para"
  define M where "M = (N - 1) sdiv 1024 + 1"
  define flag :: "nat \<Rightarrow> int32"
    where "flag = (\<lambda>n. if int n < N \<and> moved d2 atom n then 1 else 0)"
  define s1 where "s1 = map (\<lambda>bid. \<Sum>tid = 0..<1024. flag (bid * 1024 + tid)) [0..<nat M]"
  have "check_atom_distance_with d2 para atom = check_atom_distance_2 1024 M s1"
    unfolding check_atom_distance_with_def Let_def s1_def flag_def M_def N_def
    by (simp only: check_atom_distance_1_sum [OF refl])
  also have "\<dots> = (\<Sum>n = 0..<nat M. s1 ! n)"
    by (rule check_atom_distance_2_sum [OF refl])
  also have "\<dots> = (\<Sum>bid = 0..<nat M. \<Sum>tid = 0..<1024. flag (bid * 1024 + tid))"
    by (rule sum.cong) (simp_all add: s1_def)
  also have "\<dots> = (\<Sum>n = 0..<nat N. flag n)"
  proof (rule sum_blocks)
    show "flag n = 0" if "nat N \<le> n" for n
    proof -
      from that have "\<not> int n < N" by linarith
      then show ?thesis by (simp add: flag_def)
    qed
    have "N \<le> int (nat M * nat 1024)"
      unfolding M_def by (rule blocks_cover) simp
    then have "nat N \<le> nat M * nat 1024" by linarith
    then show "nat N \<le> nat M * 1024" by simp
  qed
  also have "\<dots> = (\<Sum>n = 0..<nat N. if moved d2 atom n then 1 else 0)"
  proof (rule sum.cong)
    fix n assume "n \<in> {0..<nat N}"
    then have "n < nat N" by simp
    then have "int n < N" by linarith
    then show "flag n = (if moved d2 atom n then 1 else 0)" by (simp add: flag_def)
  qed simp
  also have "\<dots> = of_nat (length (filter (moved d2 atom) [0..<nat N]))"
    by (rule count_sum)
  finally show ?thesis by (simp only: N_def)
qed


lemma count_bounded:
  assumes "N \<le> INT_MAX"
  shows "int (length (filter P [0..<nat N])) < 2 ^ 31"
proof -
  have "length (filter P [0..<nat N]) \<le> nat N"
    using length_filter_le [of P "[0..<nat N]"] by simp
  moreover have "N \<le> 2147483647" using assms by (simp only: INT_MAX_def)
  ultimately have "int (length (filter P [0..<nat N])) < 2147483648" by linarith
  then show ?thesis by simp
qed

lemma sint_count:
  assumes "int n < 2 ^ 31"
  shows "sint (of_nat n :: int32) = int n"
proof -
  have "sint (of_nat n :: int32) = signed_take_bit 31 (int n)"
    by (simp add: signed_of_nat)
  also have "\<dots> = int n"
    using assms by (intro signed_take_bit_int_eq_self) simp_all
  finally show ?thesis .
qed

text \<open>
  C8. The value that \<^verbatim>\<open>check_atom_distance\<close> returns is the number of particles \<open>n < N\<close>
  whose squared displacement since the reference snapshot exceeds \<open>d2\<close>: the two
  reductions add up the \<open>N\<close> flags exactly, and the lanes \<open>n \<ge> N\<close> of the last block add 0.
  As a 32-bit value this holds for every \<open>N\<close>; read as a C \<^verbatim>\<open>int\<close> it is the count for every
  \<open>N\<close> that an \<^verbatim>\<open>int\<close> can hold. No law of the arithmetic on positions is used.
\<close>

theorem check_atom_distance_exact_count:
  assumes "para_N para \<le> INT_MAX"
  shows "check_atom_distance_with d2 para atom
           = of_nat (length (filter (moved d2 atom) [0..<nat (para_N para)])) \<and>
         sint (check_atom_distance_with d2 para atom)
           = int (length (filter (moved d2 atom) [0..<nat (para_N para)]))"
  using sint_count [OF count_bounded [OF assms]]
  by (simp add: check_atom_distance_counts)

theorem check_atom_distance_exact_count_witness:
  "para_N para_example \<le> INT_MAX \<and>
   sint (check_atom_distance_with (1 / 4) para_example atom_example) = 1"
proof -
  have h: "para_N para_example \<le> INT_MAX" by (simp add: para_example_def INT_MAX_def)
  have "[0..<nat (para_N para_example)] = [0, 1, 2, 3]"
    by (simp add: para_example_def upt_rec)
  then have "filter (moved (1 / 4) atom_example) [0..<nat (para_N para_example)] = [2]"
    by (simp add: moved_def atom_example_def)
  with check_atom_distance_exact_count [OF h, of "1 / 4" atom_example] h
  show ?thesis by simp
qed

text \<open>
  C1. \<^verbatim>\<open>check_atom_distance\<close> returns a nonzero value if and only if some particle
  \<open>n < N\<close> has \<open>(x[n] - x0[n])\<^sup>2 + (y[n] - y0[n])\<^sup>2 + (z[n] - z0[n])\<^sup>2 > d2\<close>, whatever the
  threshold \<open>d2\<close> and the positions, for every \<open>N\<close> that an \<^verbatim>\<open>int\<close> can hold. The sum of
  squares is the one the kernel computes, in the arithmetic of the positions.
\<close>

theorem check_atom_distance_nonzero_iff:
  assumes "para_N para \<le> INT_MAX"
  shows "check_atom_distance_with d2 para atom \<noteq> 0 \<longleftrightarrow>
         (\<exists>n. int n < para_N para \<and>
              (atom_x atom ! n - atom_x0 atom ! n) * (atom_x atom ! n - atom_x0 atom ! n)
            + (atom_y atom ! n - atom_y0 atom ! n) * (atom_y atom ! n - atom_y0 atom ! n)
            + (atom_z atom ! n - atom_z0 atom ! n) * (atom_z atom ! n - atom_z0 atom ! n) > d2)"
proof -
  define c where "c = length (filter (moved d2 atom) [0..<nat (para_N para)])"
  have "sint (of_nat c :: int32) = int c"
    unfolding c_def by (rule sint_count [OF count_bounded [OF assms]])
  then have "(of_nat c :: int32) \<noteq> 0 \<longleftrightarrow> c \<noteq> 0"
    by (cases "c = 0") auto
  also have "c \<noteq> 0 \<longleftrightarrow> (\<exists>n \<in> set [0..<nat (para_N para)]. moved d2 atom n)"
    unfolding c_def by (simp add: filter_empty_conv)
  also have "\<dots> \<longleftrightarrow> (\<exists>n. int n < para_N para \<and> moved d2 atom n)"
  proof -
    have "n < nat (para_N para) \<longleftrightarrow> int n < para_N para" for n by linarith
    then show ?thesis by auto
  qed
  finally show ?thesis
    by (simp add: check_atom_distance_counts c_def moved_def Let_def)
qed

theorem check_atom_distance_nonzero_iff_witness:
  "para_N para_example \<le> INT_MAX \<and>
   check_atom_distance_with (1 / 4) para_example atom_example \<noteq> 0 \<and>
   check_atom_distance_with (1 / 4) para_example (atom_example\<lparr>atom_x0 := atom_x atom_example\<rparr>) = 0"
proof -
  have h: "para_N para_example \<le> INT_MAX" by (simp add: para_example_def INT_MAX_def)
  have n: "int n < 4 \<longleftrightarrow> n = 0 \<or> n = 1 \<or> n = 2 \<or> n = 3" for n :: nat by linarith
  have "check_atom_distance_with (1 / 4) para_example atom_example \<noteq> 0"
    unfolding check_atom_distance_nonzero_iff [OF h]
    by (rule exI [of _ 2]) (simp add: para_example_def atom_example_def)
  moreover have "check_atom_distance_with (1 / 4) para_example
                   (atom_example\<lparr>atom_x0 := atom_x atom_example\<rparr>) = 0"
    using check_atom_distance_nonzero_iff [OF h, of "1 / 4" "atom_example\<lparr>atom_x0 := atom_x atom_example\<rparr>"]
    by (auto simp: para_example_def atom_example_def n)
  ultimately show ?thesis using h by simp
qed

lemma check_atom_distance_quarter:
  "check_atom_distance para atom = check_atom_distance_with (1 / 4) para atom"
  by (simp add: check_atom_distance_def HALF_def)

subsection \<open>The capacity check\<close>

lemma check_bound_loop_upto:
  "fold (\<lambda>n (out, flag).
           if cpu_NN ! n > MN then (out @ [Error_NN (int n) (cpu_NN ! n) MN], 1)
           else (out, flag))
     [0..<k] ([], 0::int)
   = (map (\<lambda>n. Error_NN (int n) (cpu_NN ! n) MN) (filter (\<lambda>n. cpu_NN ! n > MN) [0..<k]),
      if \<exists>n<k. cpu_NN ! n > MN then 1 else 0)"
proof (induction k)
  case 0
  show ?case by simp
next
  case (Suc k)
  show ?case
  proof (cases "cpu_NN ! k > MN")
    case True
    then have "\<exists>n<Suc k. cpu_NN ! n > MN" by blast
    with True Suc show ?thesis by simp
  next
    case False
    then have "(\<exists>n<Suc k. cpu_NN ! n > MN) = (\<exists>n<k. cpu_NN ! n > MN)"
      using less_Suc_eq by auto
    with False Suc show ?thesis by simp
  qed
qed

lemma check_bound_eq:
  "check_bound para atom =
     (map (\<lambda>n. Error_NN (int n) (atom_NN atom ! n) (para_MN para))
        (filter (\<lambda>n. atom_NN atom ! n > para_MN para) [0..<nat (para_N para)]),
      if \<exists>n<nat (para_N para). atom_NN atom ! n > para_MN para
      then Exits 1 else Returns atom)"
proof (cases "\<exists>n<nat (para_N para). atom_NN atom ! n > para_MN para")
  case True
  then show ?thesis
    by (simp add: check_bound_def check_bound_loop_def check_bound_loop_upto Let_def)
next
  case False
  then have "filter (\<lambda>n. atom_NN atom ! n > para_MN para) [0..<nat (para_N para)] = []"
    by (auto simp: filter_empty_conv)
  with False show ?thesis
    by (simp add: check_bound_def check_bound_loop_def check_bound_loop_upto Let_def)
qed

lemma check_bound_fail:
  assumes "\<exists>n<nat (para_N para). atom_NN atom ! n > para_MN para"
  shows "check_bound para atom = (fst (check_bound para atom), Exits 1)"
  using assms by (simp add: check_bound_eq)

lemma check_bound_pass:
  assumes "\<not> (\<exists>n<nat (para_N para). atom_NN atom ! n > para_MN para)"
  shows "check_bound para atom = ([], Returns atom)"
proof -
  from assms
  have "filter (\<lambda>n. atom_NN atom ! n > para_MN para) [0..<nat (para_N para)] = []"
    by (auto simp: filter_empty_conv)
  with assms show ?thesis by (simp add: check_bound_eq)
qed

text \<open>
  C3. \<^verbatim>\<open>check_bound\<close> looks at the neighbor count of every particle \<open>n < N\<close>. It prints
  one diagnostic (index, observed count, capacity \<open>MN\<close>) for every particle whose count
  exceeds \<open>MN\<close>, in index order, not only for the first. If there is such a particle
  the process exits with status 1; otherwise nothing is printed and the function returns
  with the state as it was. The neighbor list is never modified, so it is never truncated.
\<close>

theorem check_bound_reports_all:
  "check_bound para atom =
     (map (\<lambda>n. Error_NN (int n) (atom_NN atom ! n) (para_MN para))
        (filter (\<lambda>n. atom_NN atom ! n > para_MN para) [0..<nat (para_N para)]),
      if \<exists>n<nat (para_N para). atom_NN atom ! n > para_MN para
      then Exits 1 else Returns atom)"
  by (rule check_bound_eq)

theorem check_bound_reports_all_witness:
  "check_bound (para_example\<lparr>para_MN := 2\<rparr>) (atom_example\<lparr>atom_NN := [3, 1, 2, 5]\<rparr>)
     = ([Error_NN 0 3 2, Error_NN 3 5 2], Exits 1) \<and>
   check_bound para_example atom_example = ([], Returns atom_example)"
proof -
  have "\<exists>n<nat (para_N (para_example\<lparr>para_MN := 2\<rparr>)).
          atom_NN (atom_example\<lparr>atom_NN := [3, 1, 2, 5]\<rparr>) ! n > para_MN (para_example\<lparr>para_MN := 2\<rparr>)"
    by (rule exI [of _ 0]) (simp add: para_example_def)
  moreover have "[0..<nat (para_N (para_example\<lparr>para_MN := 2\<rparr>))] = [0, 1, 2, 3]"
    using upt_example by simp
  ultimately
  have "check_bound (para_example\<lparr>para_MN := 2\<rparr>) (atom_example\<lparr>atom_NN := [3, 1, 2, 5]\<rparr>)
          = ([Error_NN 0 3 2, Error_NN 3 5 2], Exits 1)"
    by (subst check_bound_reports_all) simp
  moreover
  have "\<not> (\<exists>n<nat (para_N para_example). atom_NN atom_example ! n > para_MN para_example)"
    by (simp add: para_example_def atom_example_def All_less_Suc numeral_eq_Suc)
  moreover have "filter (\<lambda>n. atom_NN atom_example ! n > para_MN para_example)
                   [0..<nat (para_N para_example)] = []"
    unfolding upt_example by (simp add: para_example_def atom_example_def)
  ultimately show ?thesis
    by (subst (2) check_bound_reports_all) simp
qed

subsection \<open>The choice of the method\<close>

text \<open>The cell number is the floor of the quotient computed, whatever the exact one is.\<close>

lemma cell_number_of_quotient:
  assumes "fdiv l rc = Some q" and "int_range \<lfloor>q\<rfloor>"
  shows "cell_number fdiv l rc = Some \<lfloor>q\<rfloor>"
  using assms by (simp add: cell_number_def int_range_def)








text \<open>With \<^verbatim>\<open>DEBUG\<close> the choice is always \<^verbatim>\<open>find_neighbor_ON2\<close>.\<close>

lemma find_neighbor_debug: "find_neighbor True fdiv ON1 ON2 para atom = Some (ON2 para atom)"
  by (simp add: find_neighbor_def)



subsection \<open>The driver\<close>

lemma update_xyz0_coordinate: "coordinate d (update_xyz0 para atom) = coordinate d atom"
  by (simp add: update_xyz0_eq coordinate_def)

lemma update_xyz0_others:
  "atom_NN (update_xyz0 para atom) = atom_NN atom"
  "atom_NL (update_xyz0 para atom) = atom_NL atom"
  "atom_box_length (update_xyz0 para atom) = atom_box_length atom"
  by (simp_all add: update_xyz0_eq)

lemma update_xyz0_reference:
  "reference d (update_xyz0 para atom) =
     map (\<lambda>i. if int i < para_N para then coordinate d atom ! i else reference d atom ! i)
       [0..<length (reference d atom)]"
  by (simp add: update_xyz0_eq reference_def coordinate_def)

lemma update_xyz0_snapshot:
  assumes "n < length (reference d atom)" and "int n < para_N para"
  shows "reference d (update_xyz0 para atom) ! n = coordinate d (update_xyz0 para atom) ! n"
  using assms by (simp add: update_xyz0_reference update_xyz0_coordinate)

lemma apply_pbc_reference: "reference d (apply_pbc para atom) = reference d atom"
  by (simp add: reference_def apply_pbc_others)

lemma find_neighbor_example:
  "find_neighbor False exact_division ON1_example ON2_example para_example atom_example
   = Some (ON2_example para_example atom_example)"
  by (simp add: find_neighbor_def axis_cells_def cell_number_def int_times_def DIM_def
        NUM_OF_CELLS_def INT_MIN_def INT_MAX_def exact_division_def para_example_def
        atom_example_def Let_def)

lemma check_atom_distance_example: "check_atom_distance para_example atom_example = 1"
proof -
  have "filter (moved (1 / 4) atom_example) [0..<nat (para_N para_example)] = [2]"
    unfolding upt_example by (simp add: moved_def atom_example_def)
  then show ?thesis
    by (simp add: check_atom_distance_quarter check_atom_distance_counts)
qed

lemma check_atom_distance_example_at_rest:
  "check_atom_distance para_example (atom_example\<lparr>atom_x0 := atom_x atom_example\<rparr>) = 0"
proof -
  have "filter (moved (1 / 4) (atom_example\<lparr>atom_x0 := atom_x atom_example\<rparr>))
          [0..<nat (para_N para_example)] = []"
    unfolding upt_example by (simp add: moved_def atom_example_def)
  then show ?thesis
    by (simp add: check_atom_distance_quarter check_atom_distance_counts)
qed

text \<open>
  C4. In a call with \<open>is_first \<noteq> 1\<close> in which \<^verbatim>\<open>check_atom_distance\<close> returns 0, the driver
  returns at once: nothing is printed and the state it leaves is the state it was given
  (neighbor list, current positions and reference positions included). The result is the
  same whatever the two builders are, so none of them is called.
\<close>

theorem driver_no_rebuild:
  assumes "is_first \<noteq> 1" and "check_atom_distance para atom = 0"
  shows "find_neighbor_driver DEBUG fdiv ON1 ON2 para atom is_first = ([], Returns atom)"
  using assms by (simp add: find_neighbor_driver_def)

theorem driver_no_rebuild_witness:
  "find_neighbor_driver False exact_division ON1_example ON2_example para_example
     (atom_example\<lparr>atom_x0 := atom_x atom_example\<rparr>) 0
   = ([], Returns (atom_example\<lparr>atom_x0 := atom_x atom_example\<rparr>))"
  by (rule driver_no_rebuild [OF _ check_atom_distance_example_at_rest]) simp

text \<open>
  C5. In a call with \<open>is_first = 1\<close> the driver rebuilds with the builder that
  \<^verbatim>\<open>find_neighbor\<close> selects (\<open>built\<close> is the state the builder leaves), whatever the
  displacements are; then \<^verbatim>\<open>check_bound\<close> runs on \<open>built\<close>, and if no count exceeds \<open>MN\<close> the
  reference positions of all particles \<open>n < N\<close> are set to their current positions. The
  current positions are those the builder left (no wrap is applied), the neighbor list
  and the box are those of \<open>built\<close>; so if the builder does not move particles, a
  bootstrap call does not either. If a count exceeds \<open>MN\<close> the run ends with status 1.
\<close>

theorem driver_bootstrap:
  assumes "find_neighbor DEBUG fdiv ON1 ON2 para atom = Some built"
  shows "find_neighbor_driver DEBUG fdiv ON1 ON2 para atom 1 =
           (if \<exists>n<nat (para_N para). atom_NN built ! n > para_MN para
            then (fst (check_bound para built), Exits 1)
            else ([], Returns (update_xyz0 para built))) \<and>
         (\<forall>d<3. coordinate d (update_xyz0 para built) = coordinate d built) \<and>
         (\<forall>d<3. \<forall>n<length (reference d built). int n < para_N para \<longrightarrow>
            reference d (update_xyz0 para built) ! n = coordinate d built ! n) \<and>
         atom_NN (update_xyz0 para built) = atom_NN built \<and>
         atom_NL (update_xyz0 para built) = atom_NL built \<and>
         atom_box_length (update_xyz0 para built) = atom_box_length built \<and>
         ((\<forall>d<3. coordinate d built = coordinate d atom) \<longrightarrow>
          (\<forall>d<3. coordinate d (update_xyz0 para built) = coordinate d atom))"
proof -
  have "find_neighbor_driver DEBUG fdiv ON1 ON2 para atom 1 =
           (if \<exists>n<nat (para_N para). atom_NN built ! n > para_MN para
            then (fst (check_bound para built), Exits 1)
            else ([], Returns (update_xyz0 para built)))"
  proof (cases "\<exists>n<nat (para_N para). atom_NN built ! n > para_MN para")
    case True
    then obtain out where out: "check_bound para built = (out, Exits 1)"
      using check_bound_fail [of para built] by simp
    then have "find_neighbor_driver DEBUG fdiv ON1 ON2 para atom 1 = (out, Exits 1)"
      using assms by (simp add: find_neighbor_driver_def)
    with True out show ?thesis by simp
  next
    case False
    then have "check_bound para built = ([], Returns built)"
      by (rule check_bound_pass)
    with False assms show ?thesis by (simp add: find_neighbor_driver_def)
  qed
  then show ?thesis
    by (simp add: update_xyz0_coordinate update_xyz0_others update_xyz0_reference)
qed

theorem driver_bootstrap_witness:
  "find_neighbor_driver False exact_division ON1_example ON2_example para_example atom_example 1
   = ([], Returns (atom_example
        \<lparr>atom_x0 := [-15, -3, 12, 10], atom_NN := [1, 1, 0, 0],
         atom_NL := [1, 0, 0, 0, 0, 0, 0, 0, 0, 0, 0, 0]\<rparr>))"
proof -
  have "\<not> (\<exists>n<nat (para_N para_example).
            atom_NN (ON2_example para_example atom_example) ! n > para_MN para_example)"
    by (simp add: ON2_example_def para_example_def All_less_Suc numeral_eq_Suc)
  with driver_bootstrap [OF find_neighbor_example]
  have "find_neighbor_driver False exact_division ON1_example ON2_example para_example atom_example 1
        = ([], Returns (update_xyz0 para_example (ON2_example para_example atom_example)))"
    by simp
  then show ?thesis
    by (simp add: update_xyz0_eq ON2_example_def para_example_def atom_example_def)
qed

text \<open>
  C6. A call that does not rebuild (\<open>is_first \<noteq> 1\<close> and no particle beyond the threshold)
  leaves the state as it is, so it applies no wrap. A call that rebuilds (\<open>is_first = 1\<close>,
  or \<^verbatim>\<open>check_atom_distance\<close> nonzero) runs, in this order: the builder, which leaves
  \<open>built\<close>; \<^verbatim>\<open>check_bound\<close> on \<open>built\<close>, which may end the run; the wrap of \<open>built\<close>, in
  the steady state only; the snapshot of the wrapped state. At the end the current
  positions are the wrapped ones, and the reference position of every particle \<open>n < N\<close>
  equals its current position.
\<close>

theorem driver_rebuild_order:
  "(is_first \<noteq> 1 \<and> check_atom_distance para atom = 0 \<longrightarrow>
      find_neighbor_driver DEBUG fdiv ON1 ON2 para atom is_first = ([], Returns atom)) \<and>
   ((is_first = 1 \<or> check_atom_distance para atom \<noteq> 0) \<and>
    find_neighbor DEBUG fdiv ON1 ON2 para atom = Some built \<longrightarrow>
      (let wrapped = (if is_first = 1 then built else apply_pbc para built);
           final = update_xyz0 para wrapped
       in find_neighbor_driver DEBUG fdiv ON1 ON2 para atom is_first =
            (if \<exists>n<nat (para_N para). atom_NN built ! n > para_MN para
             then (fst (check_bound para built), Exits 1)
             else ([], Returns final)) \<and>
          (\<forall>d<3. coordinate d final = coordinate d wrapped) \<and>
          (\<forall>d<3. \<forall>n<length (reference d built). int n < para_N para \<longrightarrow>
             reference d final ! n = coordinate d final ! n)))"
proof -
  have a: "find_neighbor_driver DEBUG fdiv ON1 ON2 para atom is_first = ([], Returns atom)"
    if "is_first \<noteq> 1" "check_atom_distance para atom = 0"
    using that by (simp add: find_neighbor_driver_def)
  have b: "find_neighbor_driver DEBUG fdiv ON1 ON2 para atom is_first =
            (if \<exists>n<nat (para_N para). atom_NN built ! n > para_MN para
             then (fst (check_bound para built), Exits 1)
             else ([], Returns (update_xyz0 para (if is_first = 1 then built else apply_pbc para built))))"
    if "is_first = 1 \<or> check_atom_distance para atom \<noteq> 0"
       "find_neighbor DEBUG fdiv ON1 ON2 para atom = Some built"
  proof (cases "\<exists>n<nat (para_N para). atom_NN built ! n > para_MN para")
    case True
    then obtain out where out: "check_bound para built = (out, Exits 1)"
      using check_bound_fail [of para built] by simp
    then have "find_neighbor_driver DEBUG fdiv ON1 ON2 para atom is_first = (out, Exits 1)"
      using that by (auto simp: find_neighbor_driver_def Let_def)
    with True out show ?thesis by simp
  next
    case False
    then have "check_bound para built = ([], Returns built)"
      by (rule check_bound_pass)
    with False that show ?thesis by (auto simp: find_neighbor_driver_def Let_def)
  qed
  have c: "reference d (update_xyz0 para w) ! n = coordinate d (update_xyz0 para w) ! n"
    if "n < length (reference d built)" "int n < para_N para"
       "w = built \<or> w = apply_pbc para built" for d n w
    using that by (auto simp: update_xyz0_snapshot apply_pbc_reference)
  show ?thesis
    using a b c by (simp add: Let_def update_xyz0_coordinate)
qed


theorem driver_rebuild_order_witness:
  "find_neighbor_driver False exact_division ON1_example ON2_example para_example atom_example 0
   = ([], Returns (atom_example
        \<lparr>atom_x := [-5, 7, 2, 10], atom_y := [0, 10, 9, 5],
         atom_x0 := [-5, 7, 2, 10], atom_y0 := [0, 10, 9, 5], atom_NN := [1, 1, 0, 0],
         atom_NL := [1, 0, 0, 0, 0, 0, 0, 0, 0, 0, 0, 0]\<rparr>))"
proof -
  have "\<not> (\<exists>n<nat (para_N para_example).
            atom_NN (ON2_example para_example atom_example) ! n > para_MN para_example)"
    by (simp add: ON2_example_def para_example_def All_less_Suc numeral_eq_Suc)
  with driver_rebuild_order [of 0 para_example atom_example False exact_division ON1_example
         ON2_example
         "ON2_example para_example atom_example"]
  have "find_neighbor_driver False exact_division ON1_example ON2_example para_example atom_example 0
        = ([], Returns (update_xyz0 para_example
                         (apply_pbc para_example (ON2_example para_example atom_example))))"
    by (simp add: find_neighbor_example check_atom_distance_example Let_def)
  then show ?thesis
    by (simp add: update_xyz0_eq apply_pbc_eq wrap_def ON2_example_def para_example_def
          atom_example_def)
qed


end
